theory Spec2Isabelle
  imports Main
begin

section \<open>Run-time panics\<close>

text \<open>
  The Go code has no error returns of its own on the paths modelled here; what can go
  wrong is a run-time panic. Two kinds occur: slicing a string beyond its length
  (\<^verbatim>\<open>string(e)[len("handlers: "):]\<close>) and calling a method through a nil interface value.
  A function that may panic returns \<open>panic + 'a\<close>, with \<open>Inl\<close> the panic.
\<close>

datatype panic = SliceBounds | NilDereference

section \<open>Package handlers: ControllerError\<close>

text \<open>
  A Go string is a sequence of bytes, as \<^typ>\<open>string\<close> is a list of 8-bit characters.

  The loop of \<^verbatim>\<open>ControllerError.Public\<close>:
  \<^verbatim>\<open>for i := 1; i < len(s); i++ { if s[i] == ',' { s = s[:i]; break } }; return s\<close>
  The function below is the loop from index \<open>i\<close> on; the source starts it at \<open>1\<close>.
\<close>

function scan_comma :: "string \<Rightarrow> nat \<Rightarrow> string" where
  "scan_comma s i =
     (if i < length s
      then (if s ! i = CHR '','' then take i s else scan_comma s (Suc i))
      else s)"
  by pat_completeness auto
termination
  by (relation "measure (\<lambda>(s, i). length s - i)") auto

declare scan_comma.simps [simp del]

text \<open>
  \<^verbatim>\<open>s := string(e)[len("handlers: "):]\<close> panics when \<open>e\<close> is shorter than the prefix
  (a slice whose low bound exceeds the length); with exactly the prefix's length it is
  the empty string.
\<close>

definition ControllerError_Public :: "string \<Rightarrow> panic + string" where
  "ControllerError_Public e =
     (if length e < length ''handlers: '' then Inl SliceBounds
      else Inr (scan_comma (drop (length ''handlers: '') e) 1))"

section \<open>Error values\<close>

text \<open>
  A Go \<^verbatim>\<open>error\<close> is an interface value: nil, or a value of some dynamic type. The
  constructors are the dynamic types the two packages meet:
  \<^item> \<open>NilError\<close>: the nil interface value;
  \<^item> \<open>Shutdown\<close>: \<^verbatim>\<open>*shutdown\<close> of package web, with its \<^verbatim>\<open>Message\<close>;
  \<^item> \<open>ControllerError\<close>, \<open>PrivateError\<close>: the string types of package handlers;
  \<^item> \<open>ValidationError\<close>: \<^verbatim>\<open>models.ValidationError\<close>, a Go map from field names to
    \<^verbatim>\<open>models.PublicError\<close> values (as \<^verbatim>\<open>JSON\<close> ranges over it); the list holds the entries
    of the map, with distinct keys (\<open>map_entries\<close> below);
  \<^item> \<open>PublicOther msg code\<close>: a value of any other type that has a \<^verbatim>\<open>Public() string\<close>
    method (such as \<^verbatim>\<open>models.ModelError\<close>, whose method is not part of these sources),
    given by what its \<^verbatim>\<open>Error()\<close> and \<^verbatim>\<open>Public()\<close> return;
  \<^item> \<open>Fundamental\<close>: an error of \<^verbatim>\<open>errors.New\<close>, with no \<^verbatim>\<open>Public\<close> and no \<^verbatim>\<open>Cause\<close> method;
  \<^item> \<open>WithMessage\<close>, \<open>WithStack\<close>: the wrappers of \<^verbatim>\<open>github.com/pkg/errors\<close>, which have a
    \<^verbatim>\<open>Cause()\<close> method returning the wrapped error and no \<^verbatim>\<open>Public\<close> method.
\<close>

datatype error =
    NilError
  | Shutdown string
  | ControllerError string
  | PrivateError string
  | ValidationError "(string \<times> error) list"
  | PublicOther string string
  | Fundamental string
  | WithMessage error string
  | WithStack error

definition map_entries :: "(string \<times> error) list \<Rightarrow> bool" where
  "map_entries ve \<longleftrightarrow> distinct (map fst ve)"

text \<open>The type assertion \<^verbatim>\<open>err.(models.PublicError)\<close>: does the dynamic type have the method.\<close>

fun is_PublicError :: "error \<Rightarrow> bool" where
  "is_PublicError (ControllerError e) = True"
| "is_PublicError (ValidationError ve) = True"
| "is_PublicError (PublicOther msg code) = True"
| "is_PublicError _ = False"

text \<open>
  Modelled from the spec: \<^verbatim>\<open>models.ValidationError.Public\<close> is declared in package models,
  which is not among the sources. The spec calls the aggregate a disclosable error, and the
  comment of \<^verbatim>\<open>Error.JSON\<close> gives its code: "an error code of "validation_error" is returned".
\<close>

definition ValidationError_Public :: "(string \<times> error) list \<Rightarrow> panic + string" where
  "ValidationError_Public ve = Inr ''validation_error''"

text \<open>
  The call \<^verbatim>\<open>err.Public()\<close> on a value of static type \<^verbatim>\<open>models.PublicError\<close>. Go's typing
  leaves only the three types above and nil for such a value; the call through a nil interface
  panics, which is the last equation.
\<close>

fun Public :: "error \<Rightarrow> panic + string" where
  "Public (ControllerError e) = ControllerError_Public e"
| "Public (ValidationError ve) = ValidationError_Public ve"
| "Public (PublicOther msg code) = Inr code"
| "Public _ = Inl NilDereference"

section \<open>Package web: the shutdown signal\<close>

definition NewShutdownError :: "string \<Rightarrow> error" where
  "NewShutdownError message = Shutdown message"

text \<open>
  Modelled from the spec: \<^verbatim>\<open>errors.Cause\<close> belongs to \<^verbatim>\<open>github.com/pkg/errors\<close>, not to
  these sources. It walks the cause chain: while the error has a \<^verbatim>\<open>Cause()\<close> method, it is
  replaced by what the method returns; the first error without the method (or nil) is the
  result.
\<close>

fun Cause :: "error \<Rightarrow> error" where
  "Cause (WithMessage err msg) = Cause err"
| "Cause (WithStack err) = Cause err"
| "Cause err = err"

text \<open>\<^verbatim>\<open>if _, ok := errors.Cause(err).(*shutdown); ok { return true }; return false\<close>\<close>

definition IsShutdown :: "error \<Rightarrow> bool" where
  "IsShutdown err = (case Cause err of Shutdown message \<Rightarrow> True | _ \<Rightarrow> False)"

section \<open>Package web: the view Error and its status codes\<close>

text \<open>
  \<^verbatim>\<open>type Error struct { codes map[string]int }\<close>. The field is \<open>None\<close> for the nil map of
  the zero value. Go's \<^verbatim>\<open>int\<close> holds every HTTP status and no arithmetic is done on it.
\<close>

record Error =
  codes :: "(string \<rightharpoonup> int) option"

text \<open>Reading \<^verbatim>\<open>e.codes[public]\<close>: a nil map and a missing key both give the zero value.\<close>

definition codes_at :: "Error \<Rightarrow> string \<Rightarrow> int" where
  "codes_at e public =
     (case codes e of
        None \<Rightarrow> 0
      | Some m \<Rightarrow> (case m public of None \<Rightarrow> 0 | Some s \<Rightarrow> s))"

text \<open>
  \<^verbatim>\<open>SetCode\<close> has a pointer receiver: it returns the view as updated. The argument has static
  type \<^verbatim>\<open>models.PublicError\<close>.
\<close>

definition SetCode :: "Error \<Rightarrow> error \<Rightarrow> int \<Rightarrow> panic + Error" where
  "SetCode e err code =
     (let m = (case codes e of None \<Rightarrow> Map.empty | Some m \<Rightarrow> m)
      in case Public err of
           Inl p \<Rightarrow> Inl p
         | Inr public \<Rightarrow> Inr (e\<lparr>codes := Some (m(public \<mapsto> code))\<rparr>))"

section \<open>Package web: rendering\<close>

text \<open>
  The document is a \<^verbatim>\<open>map[string]interface{}\<close> holding a string under "error" and, for a
  validation error, a \<^verbatim>\<open>map[string]string\<close> under "fields".
\<close>

datatype jvalue = JString string | JFields "string \<rightharpoonup> string"

type_synonym document = "string \<rightharpoonup> jvalue"

text \<open>
  The body of \<^verbatim>\<open>for field, err := range ve\<close>, over the entries in the order the loop
  visits them, threading \<^verbatim>\<open>vem\<close> and \<^verbatim>\<open>status\<close>.
\<close>

fun range_fields ::
  "Error \<Rightarrow> (string \<times> error) list \<Rightarrow> (string \<rightharpoonup> string) \<Rightarrow> int \<Rightarrow>
   panic + ((string \<rightharpoonup> string) \<times> int)" where
  "range_fields e [] vem status = Inr (vem, status)"
| "range_fields e ((field, err) # rest) vem status =
     (case Public err of
        Inl p \<Rightarrow> Inl p
      | Inr public \<Rightarrow>
          range_fields e rest (vem(field \<mapsto> public))
            (let s = codes_at e public in if s \<noteq> 0 then s else status))"

text \<open>
  Go leaves the order in which \<^verbatim>\<open>range\<close> visits a map unspecified, and it may differ from
  one loop to the next over the same map. The order is therefore an argument of the
  rendering: \<open>order ve\<close> is the sequence of entries the loop visits for the map \<open>ve\<close>, and
  \<open>range_order order ve\<close> says that it visits every entry of the map once.
\<close>

definition range_order ::
  "((string \<times> error) list \<Rightarrow> (string \<times> error) list) \<Rightarrow> (string \<times> error) list \<Rightarrow> bool" where
  "range_order order ve \<longleftrightarrow> distinct (map fst (order ve)) \<and> set (order ve) = set ve"

text \<open>
  \<^verbatim>\<open>Error.JSON\<close>. It ends in \<^verbatim>\<open>Respond(ctx, w, data, status)\<close>, the writer outside these
  sources: the result is the document and the status handed to it, or the panic that
  stopped the rendering before.
\<close>

definition JSON ::
  "Error \<Rightarrow> ((string \<times> error) list \<Rightarrow> (string \<times> error) list) \<Rightarrow> error \<Rightarrow>
   panic + (document \<times> int)" where
  "JSON e order err =
     (let status = 500;
          data = [''error'' \<mapsto> JString ''server_error''];
          public_step =
            (if is_PublicError err
             then (case Public err of
                     Inl p \<Rightarrow> Inl p
                   | Inr public \<Rightarrow>
                       Inr (data(''error'' \<mapsto> JString public),
                            (let s = codes_at e public in if s \<noteq> 0 then s else 400)))
             else Inr (data, status))
      in case public_step of
           Inl p \<Rightarrow> Inl p
         | Inr (data, status) \<Rightarrow>
             (case err of
                ValidationError ve \<Rightarrow>
                  (case range_fields e (order ve) Map.empty status of
                     Inl p \<Rightarrow> Inl p
                   | Inr (vem, status) \<Rightarrow> Inr (data(''fields'' \<mapsto> JFields vem), status))
              | _ \<Rightarrow> Inr (data, status)))"

section \<open>Notions used to state the properties\<close>

text \<open>The registry holds an entry for a code: the key is present in the Go map.\<close>

definition has_entry :: "Error \<Rightarrow> string \<Rightarrow> bool" where
  "has_entry e public = (case codes e of None \<Rightarrow> False | Some m \<Rightarrow> m public \<noteq> None)"

text \<open>The code of a field error whose \<^verbatim>\<open>Public()\<close> returns; the empty string where it panics.\<close>

definition code_of :: "error \<Rightarrow> string" where
  "code_of x = (case Public x of Inl p \<Rightarrow> [] | Inr c \<Rightarrow> c)"

text \<open>
  The statuses the loop assigns, in the order it assigns them: the non-zero registered
  statuses of the visited fields' codes.
\<close>

definition field_statuses :: "Error \<Rightarrow> (string \<times> error) list \<Rightarrow> int list" where
  "field_statuses e vs = filter (\<lambda>s. s \<noteq> 0) (map (\<lambda>(field, x). codes_at e (code_of x)) vs)"

text \<open>
  The convention of the error constants, \<^verbatim>\<open>"<prefix>: <code>, <message>"\<close>, as in
  \<^verbatim>\<open>ErrNotFound ControllerError = "handlers: not_found, resource not found"\<close>.
\<close>

definition Encode :: "string \<Rightarrow> string \<Rightarrow> string \<Rightarrow> string" where
  "Encode prefix code message = prefix @ '': '' @ code @ '', '' @ message"

text \<open>
  Modelled from the spec: \<^verbatim>\<open>Decode(prefix, encoded)\<close> of the spec's codec, which has no
  generic counterpart in these sources (they hold \<^verbatim>\<open>ControllerError.Public\<close>, for the prefix
  "handlers", only). In the spec's words it "strips exactly len(prefix) + 2 characters (the
  prefix plus the delimiter) from the front, then scans forward for the first comma and
  returns everything before it"; an encoded string that is too short or has no comma after
  the prefix is an explicit decode failure, \<open>None\<close>.
\<close>

definition Decode :: "string \<Rightarrow> string \<Rightarrow> string option" where
  "Decode prefix encoded =
     (if length encoded < length prefix + 2 then None
      else (let s = drop (length prefix + 2) encoded
            in if CHR '','' \<in> set s then Some (takeWhile (\<lambda>c. c \<noteq> CHR '','') s) else None))"

text \<open>
  Wrapping layers of \<^verbatim>\<open>github.com/pkg/errors\<close>: \<^verbatim>\<open>WithMessage(err, msg)\<close> and
  \<^verbatim>\<open>WithStack(err)\<close>, which both return nil for a nil error. \<^verbatim>\<open>Wrap\<close> is the two together.
\<close>

datatype layer = Message string | Stack

fun wrap_layer :: "layer \<Rightarrow> error \<Rightarrow> error" where
  "wrap_layer l NilError = NilError"
| "wrap_layer (Message msg) err = WithMessage err msg"
| "wrap_layer Stack err = WithStack err"

definition wrap_layers :: "layer list \<Rightarrow> error \<Rightarrow> error" where
  "wrap_layers ls err = foldr wrap_layer ls err"

text \<open>The dynamic type has a \<^verbatim>\<open>Cause()\<close> method; the dynamic type is \<^verbatim>\<open>*shutdown\<close>.\<close>

fun has_Cause :: "error \<Rightarrow> bool" where
  "has_Cause (WithMessage err msg) = True"
| "has_Cause (WithStack err) = True"
| "has_Cause _ = False"

fun is_shutdown :: "error \<Rightarrow> bool" where
  "is_shutdown (Shutdown message) = True"
| "is_shutdown _ = False"

text \<open>The dynamic type is \<^verbatim>\<open>models.ValidationError\<close>.\<close>

fun is_ValidationError :: "error \<Rightarrow> bool" where
  "is_ValidationError (ValidationError ve) = True"
| "is_ValidationError _ = False"

section \<open>Properties of the code extraction\<close>

lemma scan_comma_none:
  "\<forall>j. i \<le> j \<and> j < length s \<longrightarrow> s ! j \<noteq> CHR '','' \<Longrightarrow> scan_comma s i = s"
proof (induction s i rule: scan_comma.induct)
  case (1 s i)
  show ?case
  proof (cases "i < length s")
    case True
    with "1.prems" have ne: "s ! i \<noteq> CHR '',''" by simp
    have "scan_comma s (Suc i) = s"
      using "1.IH" [OF True ne] "1.prems" by simp
    with True ne show ?thesis by (subst scan_comma.simps) simp
  next
    case False
    then show ?thesis by (subst scan_comma.simps) simp
  qed
qed

lemma scan_comma_first:
  "i \<le> k \<Longrightarrow> k < length s \<Longrightarrow> s ! k = CHR '','' \<Longrightarrow>
   \<forall>j. i \<le> j \<and> j < k \<longrightarrow> s ! j \<noteq> CHR '','' \<Longrightarrow> scan_comma s i = take k s"
proof (induction s i rule: scan_comma.induct)
  case (1 s i)
  have lt: "i < length s" using "1.prems" by simp
  show ?case
  proof (cases "s ! i = CHR '',''")
    case True
    have "i = k"
    proof (rule ccontr)
      assume "i \<noteq> k"
      with "1.prems"(1) have "i < k" by simp
      with "1.prems"(4) True show False by simp
    qed
    with lt True show ?thesis by (subst scan_comma.simps) simp
  next
    case False
    with "1.prems" have "i \<noteq> k" by auto
    with "1.prems"(1) have le: "Suc i \<le> k" by simp
    have "scan_comma s (Suc i) = take k s"
      using "1.IH" [OF lt False le "1.prems"(2) "1.prems"(3)] "1.prems"(4) by simp
    with lt False show ?thesis by (subst scan_comma.simps) simp
  qed
qed

lemma notin_drop_nth:
  assumes "x \<notin> set (drop i s)" and "i \<le> j" and "j < length s"
  shows "s ! j \<noteq> x"
proof
  assume eq: "s ! j = x"
  have "j - i < length (drop i s)" using assms(2,3) by simp
  moreover have "drop i s ! (j - i) = s ! j" using assms(2,3) by simp
  ultimately have "s ! j \<in> set (drop i s)" by (metis nth_mem)
  with eq assms(1) show False by simp
qed

lemma scan_comma_code:
  assumes "code \<noteq> []" and "CHR '','' \<notin> set code"
  shows "scan_comma (code @ CHR '','' # rest) 1 = code"
proof -
  let ?s = "code @ CHR '','' # rest"
  have "scan_comma ?s 1 = take (length code) ?s"
  proof (rule scan_comma_first)
    show "1 \<le> length code" using assms(1) by (cases code) simp_all
    show "length code < length ?s" by simp
    show "?s ! length code = CHR '',''" by simp
    show "\<forall>j. 1 \<le> j \<and> j < length code \<longrightarrow> ?s ! j \<noteq> CHR '',''"
      using assms(2) by (auto simp: nth_append) (metis nth_mem)
  qed
  then show ?thesis by simp
qed

lemma Decode_Encode:
  assumes "CHR '','' \<notin> set code"
  shows "Decode prefix (Encode prefix code message) = Some code"
proof -
  have d: "drop (length prefix + 2) (Encode prefix code message) = code @ CHR '','' # CHR '' '' # message"
    by (simp add: Encode_def)
  have l: "\<not> length (Encode prefix code message) < length prefix + 2"
    by (simp add: Encode_def)
  have "takeWhile (\<lambda>c. c \<noteq> CHR '','') (code @ CHR '','' # CHR '' '' # message) = code"
    using assms by (induction code) auto
  with d l show ?thesis by (simp add: Decode_def)
qed

lemma Public_Encode:
  assumes "code \<noteq> []" and "CHR '','' \<notin> set code"
  shows "ControllerError_Public (Encode ''handlers'' code message) = Inr code"
proof -
  have "drop (length ''handlers: '') (Encode ''handlers'' code message) = code @ CHR '','' # CHR '' '' # message"
    by (simp add: Encode_def)
  moreover have "\<not> length (Encode ''handlers'' code message) < length ''handlers: ''"
    by (simp add: Encode_def)
  ultimately show ?thesis
    using scan_comma_code [OF assms] by (simp add: ControllerError_Public_def)
qed

section \<open>Properties of the rendering loop\<close>

lemma codes_at_no_entry: "\<not> has_entry e c \<Longrightarrow> codes_at e c = 0"
  by (simp add: has_entry_def codes_at_def split: option.splits)

lemma range_fields_returns:
  "\<forall>(field, x) \<in> set vs. \<exists>c. Public x = Inr c \<Longrightarrow>
   \<exists>vem' st'. range_fields e vs vem st = Inr (vem', st')"
  by (induction vs arbitrary: vem st) auto


lemma range_fields_vem:
  "range_fields e vs vem st = Inr (vem', st') \<Longrightarrow> distinct (map fst vs) \<Longrightarrow>
   vem' = (\<lambda>field. case map_of vs field of None \<Rightarrow> vem field | Some x \<Rightarrow> Some (code_of x))"
proof (induction vs arbitrary: vem st)
  case Nil
  then show ?case by simp
next
  case (Cons a vs)
  obtain field x where a: "a = (field, x)" by (cases a)
  from Cons.prems(1) a obtain c where c: "Public x = Inr c"
    by (auto split: sum.splits)
  let ?st = "(let s = codes_at e c in if s \<noteq> 0 then s else st)"
  have step: "range_fields e vs (vem(field \<mapsto> c)) ?st = Inr (vem', st')"
    using Cons.prems(1) a c by simp
  have d: "distinct (map fst vs)" and nin: "field \<notin> fst ` set vs"
    using Cons.prems(2) a by auto
  have none: "map_of vs field = None"
    using nin by (simp add: map_of_eq_None_iff)
  have "vem' = (\<lambda>f. case map_of vs f of None \<Rightarrow> (vem(field \<mapsto> c)) f | Some x \<Rightarrow> Some (code_of x))"
    by (rule Cons.IH [OF step d])
  then show ?case
    using a c none by (auto simp: fun_eq_iff code_of_def split: option.splits)
qed

lemma range_fields_status:
  "range_fields e vs vem st = Inr (vem', st') \<Longrightarrow>
   st' = (if field_statuses e vs = [] then st else last (field_statuses e vs))"
proof (induction vs arbitrary: vem st)
  case Nil
  then show ?case by (simp add: field_statuses_def)
next
  case (Cons a vs)
  obtain field x where a: "a = (field, x)" by (cases a)
  from Cons.prems(1) a obtain c where c: "Public x = Inr c"
    by (auto split: sum.splits)
  let ?st = "(let s = codes_at e c in if s \<noteq> 0 then s else st)"
  have step: "range_fields e vs (vem(field \<mapsto> c)) ?st = Inr (vem', st')"
    using Cons.prems(1) a c by simp
  have ih: "st' = (if field_statuses e vs = [] then ?st else last (field_statuses e vs))"
    by (rule Cons.IH [OF step])
  have co: "code_of x = c" using c by (simp add: code_of_def)
  show ?case
    using ih a co by (simp add: field_statuses_def Let_def)
qed

lemma field_statuses_set:
  "set (field_statuses e vs) = {s. s \<noteq> 0 \<and> (\<exists>(field, x) \<in> set vs. s = codes_at e (code_of x))}"
  by (auto simp: field_statuses_def)

lemma JSON_plain:
  assumes "is_PublicError err" and "\<not> is_ValidationError err" and "Public err = Inr c"
  shows "JSON e order err =
         Inr ([''error'' \<mapsto> JString c], if codes_at e c \<noteq> 0 then codes_at e c else 400)"
  using assms by (cases err) (simp_all add: JSON_def Let_def)

lemma JSON_opaque:
  assumes "\<not> is_PublicError err"
  shows "JSON e order err = Inr ([''error'' \<mapsto> JString ''server_error''], 500)"
  using assms by (cases err) (simp_all add: JSON_def Let_def)

lemma JSON_validation:
  "JSON e order (ValidationError ve) =
     (case range_fields e (order ve) Map.empty
             (if codes_at e ''validation_error'' \<noteq> 0 then codes_at e ''validation_error'' else 400) of
        Inl p \<Rightarrow> Inl p
      | Inr (vem, status) \<Rightarrow>
          Inr ([''error'' \<mapsto> JString ''validation_error'', ''fields'' \<mapsto> JFields vem], status))"
  by (simp add: JSON_def Let_def ValidationError_Public_def split: sum.splits)

lemma range_order_map_of:
  assumes "map_entries ve" and "range_order order ve"
  shows "map_of (order ve) = map_of ve"
  using assms by (simp add: map_entries_def range_order_def map_of_inject_set)

lemma JSON_validation_result:
  assumes me: "map_entries ve" and ro: "range_order order ve"
    and ok: "\<forall>(field, x) \<in> set ve. \<exists>c. Public x = Inr c"
  shows "\<exists>status.
           JSON e order (ValidationError ve) =
             Inr ([''error'' \<mapsto> JString ''validation_error'',
                   ''fields'' \<mapsto> JFields (\<lambda>field. case map_of ve field of
                                                   None \<Rightarrow> None | Some x \<Rightarrow> Some (code_of x))],
                  status) \<and>
           status = (if field_statuses e (order ve) = []
                     then (if codes_at e ''validation_error'' \<noteq> 0
                           then codes_at e ''validation_error'' else 400)
                     else last (field_statuses e (order ve)))"
proof -
  let ?st = "if codes_at e ''validation_error'' \<noteq> 0 then codes_at e ''validation_error'' else 400"
  have "\<forall>(field, x) \<in> set (order ve). \<exists>c. Public x = Inr c"
    using ok ro by (simp add: range_order_def)
  then obtain vem st where r: "range_fields e (order ve) Map.empty ?st = Inr (vem, st)"
    using range_fields_returns by blast
  have d: "distinct (map fst (order ve))" using ro by (simp add: range_order_def)
  have "vem = (\<lambda>field. case map_of (order ve) field of None \<Rightarrow> None | Some x \<Rightarrow> Some (code_of x))"
    using range_fields_vem [OF r d] by simp
  then have vem: "vem = (\<lambda>field. case map_of ve field of None \<Rightarrow> None | Some x \<Rightarrow> Some (code_of x))"
    by (simp add: range_order_map_of [OF me ro])
  have st: "st = (if field_statuses e (order ve) = [] then ?st else last (field_statuses e (order ve)))"
    by (rule range_fields_status [OF r])
  show ?thesis
    using r vem st by (simp add: JSON_validation)
qed

lemma single_status:
  assumes "s \<in> set ss" and "\<forall>t \<in> set ss. t = s"
  shows "ss \<noteq> [] \<and> last ss = s"
proof -
  have ne: "ss \<noteq> []" using assms(1) by auto
  then have "last ss \<in> set ss" by simp
  with assms(2) ne show ?thesis by simp
qed

lemma SetCode_returns:
  assumes "Public err = Inr c"
  shows "\<exists>e'. SetCode e err s = Inr e' \<and> has_entry e' c \<and>
              (\<forall>k. codes_at e' k = (if k = c then s else codes_at e k))"
  using assms by (auto simp: SetCode_def has_entry_def codes_at_def split: option.splits)

lemma SetCode_overwrites:
  assumes "Public err = Inr c" and "SetCode e err s = Inr e'"
  shows "SetCode e' err t = SetCode e err t"
  using assms by (auto simp: SetCode_def split: option.splits)








section \<open>Evaluations and the cause chain\<close>

lemma Public_not_found:
  "ControllerError_Public ''handlers: not_found, resource not found'' = Inr ''not_found''"
  by (simp add: ControllerError_Public_def scan_comma.simps)

lemma Public_too_young:
  "ControllerError_Public ''handlers: too_young, must be 18'' = Inr ''too_young''"
  by (simp add: ControllerError_Public_def scan_comma.simps)

lemma Public_invalid_email:
  "ControllerError_Public ''handlers: invalid_email, no at sign'' = Inr ''invalid_email''"
  by (simp add: ControllerError_Public_def scan_comma.simps)

lemma Cause_wrap_layers: "\<not> has_Cause err \<Longrightarrow> Cause (wrap_layers ls err) = err"
proof (induction ls)
  case Nil
  then show ?case by (cases err) (simp_all add: wrap_layers_def)
next
  case (Cons l ls)
  have ih: "Cause (wrap_layers ls err) = err" using Cons by simp
  have unf: "wrap_layers (l # ls) err = wrap_layer l (wrap_layers ls err)"
    by (simp add: wrap_layers_def)
  show ?case
  proof (cases "wrap_layers ls err = NilError")
    case True
    with ih unf show ?thesis by simp
  next
    case False
    then have "Cause (wrap_layer l (wrap_layers ls err)) = Cause (wrap_layers ls err)"
      by (cases l; cases "wrap_layers ls err") simp_all
    with ih unf show ?thesis by simp
  qed
qed

lemma IsShutdown_iff: "IsShutdown err = is_shutdown (Cause err)"
  by (cases "Cause err") (simp_all add: IsShutdown_def)

section \<open>The claims on the code extraction\<close>

text \<open>
  C10. For every ControllerError at least as long as \<^verbatim>\<open>"handlers: "\<close> whose remainder after
  that prefix has no comma at index 1 or beyond, \<^verbatim>\<open>Public()\<close> returns the whole remainder:
  the scan starts at index 1, so a comma at index 0 stays in the result.
\<close>

theorem Public_no_comma_from_1:
  assumes "length ''handlers: '' \<le> length e"
    and "CHR '','' \<notin> set (drop 1 (drop (length ''handlers: '') e))"
  shows "ControllerError_Public e = Inr (drop (length ''handlers: '') e)"
proof -
  have "scan_comma (drop (length ''handlers: '') e) 1 = drop (length ''handlers: '') e"
  proof (rule scan_comma_none, intro allI impI)
    fix j
    assume "1 \<le> j \<and> j < length (drop (length ''handlers: '') e)"
    then show "drop (length ''handlers: '') e ! j \<noteq> CHR '',''"
      using notin_drop_nth [OF assms(2), of j] by simp
  qed
  with assms(1) show ?thesis by (simp add: ControllerError_Public_def)
qed

theorem Public_no_comma_from_1_witness:
  "length ''handlers: '' \<le> length ''handlers: ,oops'' \<and>
   CHR '','' \<notin> set (drop 1 (drop (length ''handlers: '') ''handlers: ,oops'')) \<and>
   ControllerError_Public ''handlers: ,oops'' = Inr '',oops''"
  using Public_no_comma_from_1 [of "''handlers: ,oops''"] by simp

text \<open>
  C5. The claim is that decoding \<^verbatim>\<open>"<prefix>: <code>, <message>"\<close> returns \<open>code\<close> for every
  code without a comma, and that \<^verbatim>\<open>ControllerError.Public\<close> does so for the prefix "handlers".
  The empty code has no comma. The code takes "handlers: , no code" to ", no code": its loop
  starts at index 1 and steps over the comma that ends the empty code, where the comment of
  \<^verbatim>\<open>Public\<close> defines the code as the string "before the comma that follows". The spec's
  \<open>Decode\<close> returns the empty code there.
\<close>

theorem Public_empty_code_returns_rest:
  "CHR '','' \<notin> set '''' \<and>
   Encode ''handlers'' '''' ''no code'' = ''handlers: , no code'' \<and>
   ControllerError_Public (Encode ''handlers'' '''' ''no code'') = Inr '', no code'' \<and>
   ControllerError_Public (Encode ''handlers'' '''' ''no code'') \<noteq> Inr '''' \<and>
   Decode ''handlers'' (Encode ''handlers'' '''' ''no code'') = Some ''''"
  by (simp add: Encode_def ControllerError_Public_def scan_comma.simps Decode_def)

text \<open>
  Away from the empty code the two agree with the claim: \<open>Decode_Encode\<close> is the round trip
  of the spec's \<open>Decode\<close> for every prefix and every code without a comma, and
  \<open>Public_Encode\<close> the round trip of \<^verbatim>\<open>ControllerError.Public\<close> for every such code that is
  not empty.
\<close>

lemma Public_Encode_not_found:
  "Encode ''handlers'' ''not_found'' ''resource not found'' = ''handlers: not_found, resource not found'' \<and>
   ControllerError_Public (Encode ''handlers'' ''not_found'' ''resource not found'') = Inr ''not_found'' \<and>
   Decode ''models'' (Encode ''models'' ''invalid_parse'' ''contents are not in appropriate format'') =
     Some ''invalid_parse''"
  using Public_Encode [of "''not_found''" "''resource not found''"]
    Decode_Encode [of "''invalid_parse''" "''models''" "''contents are not in appropriate format''"]
  by (simp add: Encode_def)

section \<open>The claims on rendering\<close>

text \<open>
  C2. An error whose dynamic type has no \<^verbatim>\<open>Public()\<close> method (in particular it is no
  validation error, which has one) is rendered as the document with the single entry
  "error": "server_error" and the status 500. The result is the same constant for every
  such error and every registry: nothing of the error's content is in it.
\<close>

theorem JSON_opaque_server_error:
  assumes "\<not> is_PublicError err"
  shows "JSON e order err = Inr ([''error'' \<mapsto> JString ''server_error''], 500)"
  using assms by (rule JSON_opaque)

theorem JSON_opaque_server_error_witness:
  "\<not> is_PublicError (WithStack (WithMessage (ControllerError ''handlers: not_found, resource not found'') ''load user'')) \<and>
   JSON \<lparr>codes = Some [''not_found'' \<mapsto> 404]\<rparr> id
     (WithStack (WithMessage (ControllerError ''handlers: not_found, resource not found'') ''load user'')) =
   Inr ([''error'' \<mapsto> JString ''server_error''], 500)"
  using JSON_opaque_server_error
    [of "WithStack (WithMessage (ControllerError ''handlers: not_found, resource not found'') ''load user'')"
        "\<lparr>codes = Some [''not_found'' \<mapsto> 404]\<rparr>" id]
  by simp

text \<open>
  C1, as amended. An error with a \<^verbatim>\<open>Public()\<close> method that returns the code \<open>c\<close>, that is
  not a validation error, and for whose code the registry has no entry, is rendered as
  the document with the single entry "error": \<open>c\<close> and the status 400.
\<close>

theorem JSON_disclosable_default:
  assumes "is_PublicError err" and "\<not> is_ValidationError err"
    and "Public err = Inr c" and "\<not> has_entry e c"
  shows "JSON e order err = Inr ([''error'' \<mapsto> JString c], 400)"
  using JSON_plain [OF assms(1,2,3)] codes_at_no_entry [OF assms(4)] by simp

theorem JSON_disclosable_default_witness:
  "is_PublicError (ControllerError ''handlers: not_found, resource not found'') \<and>
   \<not> is_ValidationError (ControllerError ''handlers: not_found, resource not found'') \<and>
   Public (ControllerError ''handlers: not_found, resource not found'') = Inr ''not_found'' \<and>
   \<not> has_entry \<lparr>codes = Some [''too_young'' \<mapsto> 422]\<rparr> ''not_found'' \<and>
   JSON \<lparr>codes = Some [''too_young'' \<mapsto> 422]\<rparr> id
     (ControllerError ''handlers: not_found, resource not found'') =
   Inr ([''error'' \<mapsto> JString ''not_found''], 400)"
  using JSON_disclosable_default
    [of "ControllerError ''handlers: not_found, resource not found''" "''not_found''"
        "\<lparr>codes = Some [''too_young'' \<mapsto> 422]\<rparr>" id]
  by (simp add: Public_not_found has_entry_def)

text \<open>
  A validation error has the \<^verbatim>\<open>Public()\<close> method as well. With no entry for its own code
  its document carries "fields" besides "error", and a field's registered status replaces
  the 400.
\<close>

theorem JSON_disclosable_aggregate_counterexample:
  "is_PublicError (ValidationError [(''age'', ControllerError ''handlers: too_young, must be 18'')]) \<and>
   Public (ValidationError [(''age'', ControllerError ''handlers: too_young, must be 18'')]) =
     Inr ''validation_error'' \<and>
   \<not> has_entry \<lparr>codes = Some [''too_young'' \<mapsto> 422]\<rparr> ''validation_error'' \<and>
   JSON \<lparr>codes = Some [''too_young'' \<mapsto> 422]\<rparr> id
     (ValidationError [(''age'', ControllerError ''handlers: too_young, must be 18'')]) =
   Inr ([''error'' \<mapsto> JString ''validation_error'',
         ''fields'' \<mapsto> JFields [''age'' \<mapsto> ''too_young'']], 422) \<and>
   JSON \<lparr>codes = Some [''too_young'' \<mapsto> 422]\<rparr> id
     (ValidationError [(''age'', ControllerError ''handlers: too_young, must be 18'')]) \<noteq>
   Inr ([''error'' \<mapsto> JString ''validation_error''], 400)"
  by (simp add: JSON_validation Public_too_young ValidationError_Public_def has_entry_def codes_at_def)

text \<open>
  C3, as amended. For a validation error whose fields all have a public code
  (\<^verbatim>\<open>Public()\<close> returns for each), rendering returns a document whose "fields" maps every
  field name of the map, and nothing else, to that field's code. When one field's code has
  a non-zero registered status and the codes of all other fields have none (or zero), the
  final status is that status, whatever the order of the visit and whatever is registered
  for the aggregate's own code.
\<close>

theorem JSON_validation_fields_status:
  assumes "map_entries ve" and "range_order order ve"
    and "\<forall>(field, x) \<in> set ve. \<exists>c. Public x = Inr c"
  shows "\<exists>data vem status.
           JSON e order (ValidationError ve) = Inr (data, status) \<and>
           data ''fields'' = Some (JFields vem) \<and>
           dom vem = fst ` set ve \<and>
           (\<forall>(field, x) \<in> set ve. \<forall>c. Public x = Inr c \<longrightarrow> vem field = Some c) \<and>
           (\<forall>f0 x0 c0.
              (f0, x0) \<in> set ve \<and> Public x0 = Inr c0 \<and> codes_at e c0 \<noteq> 0 \<and>
              (\<forall>(field, x) \<in> set ve. field \<noteq> f0 \<longrightarrow> (\<forall>c. Public x = Inr c \<longrightarrow> codes_at e c = 0))
              \<longrightarrow> status = codes_at e c0)"
proof -
  let ?vem = "\<lambda>field. case map_of ve field of None \<Rightarrow> None | Some x \<Rightarrow> Some (code_of x)"
  let ?data = "[''error'' \<mapsto> JString ''validation_error'', ''fields'' \<mapsto> JFields ?vem]"
  from JSON_validation_result [OF assms] obtain status where
    js: "JSON e order (ValidationError ve) = Inr (?data, status)"
    and st: "status = (if field_statuses e (order ve) = []
                     then (if codes_at e ''validation_error'' \<noteq> 0
                           then codes_at e ''validation_error'' else 400)
                     else last (field_statuses e (order ve)))"
    by blast
  have d: "distinct (map fst ve)" using assms(1) by (simp add: map_entries_def)
  have dom: "dom ?vem = fst ` set ve"
    by (auto simp: dom_def map_of_eq_None_iff split: option.splits)
  have fields: "\<forall>(field, x) \<in> set ve. \<forall>c. Public x = Inr c \<longrightarrow> ?vem field = Some c"
    using d by (auto simp: code_of_def)
  have status: "status = codes_at e c0"
    if h: "(f0, x0) \<in> set ve" "Public x0 = Inr c0" "codes_at e c0 \<noteq> 0"
      "\<forall>(field, x) \<in> set ve. field \<noteq> f0 \<longrightarrow> (\<forall>c. Public x = Inr c \<longrightarrow> codes_at e c = 0)"
    for f0 x0 c0
  proof -
    have seteq: "set (order ve) = set ve" using assms(2) by (simp add: range_order_def)
    have c0: "code_of x0 = c0" using h(2) by (simp add: code_of_def)
    have mem: "codes_at e c0 \<in> set (field_statuses e (order ve))"
      using h(1,3) c0 seteq by (force simp: field_statuses_set)
    have all: "\<forall>t \<in> set (field_statuses e (order ve)). t = codes_at e c0"
    proof
      fix t assume "t \<in> set (field_statuses e (order ve))"
      then obtain field x where fx: "(field, x) \<in> set ve" "t = codes_at e (code_of x)" "t \<noteq> 0"
        using seteq by (auto simp: field_statuses_set)
      from assms(3) fx(1) obtain c where c: "Public x = Inr c" by auto
      then have co: "code_of x = c" by (simp add: code_of_def)
      show "t = codes_at e c0"
      proof (cases "field = f0")
        case True
        with d fx(1) h(1) have "x = x0" by (metis eq_key_imp_eq_value)
        with fx(2) c0 show ?thesis by simp
      next
        case False
        with h(4) fx(1) c have "codes_at e c = 0" by auto
        with fx(2,3) co show ?thesis by simp
      qed
    qed
    from single_status [OF mem all] st show ?thesis by simp
  qed
  show ?thesis
    using js dom fields status by (intro exI [of _ ?data] exI [of _ ?vem] exI [of _ status]) auto
qed

theorem JSON_validation_fields_status_witness:
  "map_entries [(''email'', ControllerError ''handlers: invalid_email, no at sign''),
                (''age'', ControllerError ''handlers: too_young, must be 18'')] \<and>
   range_order rev [(''email'', ControllerError ''handlers: invalid_email, no at sign''),
                    (''age'', ControllerError ''handlers: too_young, must be 18'')] \<and>
   codes_at \<lparr>codes = Some [''too_young'' \<mapsto> 422]\<rparr> ''too_young'' = 422 \<and>
   codes_at \<lparr>codes = Some [''too_young'' \<mapsto> 422]\<rparr> ''invalid_email'' = 0 \<and>
   (\<exists>data vem.
      JSON \<lparr>codes = Some [''too_young'' \<mapsto> 422]\<rparr> rev
        (ValidationError [(''email'', ControllerError ''handlers: invalid_email, no at sign''),
                          (''age'', ControllerError ''handlers: too_young, must be 18'')]) =
        Inr (data, 422) \<and>
      data ''fields'' = Some (JFields vem) \<and>
      dom vem = {''email'', ''age''} \<and>
      vem ''email'' = Some ''invalid_email'' \<and> vem ''age'' = Some ''too_young'')"
proof -
  let ?ve = "[(''email'', ControllerError ''handlers: invalid_email, no at sign''),
              (''age'', ControllerError ''handlers: too_young, must be 18'')]"
  let ?e = "\<lparr>codes = Some [''too_young'' \<mapsto> 422]\<rparr>"
  have me: "map_entries ?ve" by (simp add: map_entries_def)
  have ro: "range_order rev ?ve" by (simp add: range_order_def insert_commute)
  have ok: "\<forall>(field, x) \<in> set ?ve. \<exists>c. Public x = Inr c"
    by (simp add: Public_too_young Public_invalid_email)
  have at: "codes_at ?e ''too_young'' = 422" "codes_at ?e ''invalid_email'' = 0"
    by (simp_all add: codes_at_def)
  from JSON_validation_fields_status [OF me ro ok, of ?e] obtain data vem status where
    js: "JSON ?e rev (ValidationError ?ve) = Inr (data, status)"
    and fl: "data ''fields'' = Some (JFields vem)"
    and dm: "dom vem = fst ` set ?ve"
    and vm: "\<forall>(field, x) \<in> set ?ve. \<forall>c. Public x = Inr c \<longrightarrow> vem field = Some c"
    and st: "\<forall>f0 x0 c0.
              (f0, x0) \<in> set ?ve \<and> Public x0 = Inr c0 \<and> codes_at ?e c0 \<noteq> 0 \<and>
              (\<forall>(field, x) \<in> set ?ve. field \<noteq> f0 \<longrightarrow> (\<forall>c. Public x = Inr c \<longrightarrow> codes_at ?e c = 0))
              \<longrightarrow> status = codes_at ?e c0"
    by blast
  have "status = codes_at ?e ''too_young''"
    by (rule st [rule_format, of "''age''" "ControllerError ''handlers: too_young, must be 18''"])
       (simp add: Public_too_young Public_invalid_email at)
  then have s: "status = 422" by (simp add: at)
  have v: "vem ''email'' = Some ''invalid_email''" "vem ''age'' = Some ''too_young''"
    using vm by (simp_all add: Public_too_young Public_invalid_email)
  have d: "dom vem = {''email'', ''age''}" using dm by simp
  from me ro at js fl d v s show ?thesis by blast
qed

text \<open>
  A status of 0 can be registered, and the loop skips it (\<^verbatim>\<open>s != 0\<close>): with the one
  registered override 0 the final status is the default 400, not the override.
\<close>

theorem JSON_validation_zero_override_counterexample:
  "SetCode \<lparr>codes = None\<rparr> (ControllerError ''handlers: too_young, must be 18'') 0 =
     Inr \<lparr>codes = Some [''too_young'' \<mapsto> 0]\<rparr> \<and>
   has_entry \<lparr>codes = Some [''too_young'' \<mapsto> 0]\<rparr> ''too_young'' \<and>
   \<not> has_entry \<lparr>codes = Some [''too_young'' \<mapsto> 0]\<rparr> ''invalid_email'' \<and>
   map_entries [(''email'', ControllerError ''handlers: invalid_email, no at sign''),
                (''age'', ControllerError ''handlers: too_young, must be 18'')] \<and>
   range_order id [(''email'', ControllerError ''handlers: invalid_email, no at sign''),
                   (''age'', ControllerError ''handlers: too_young, must be 18'')] \<and>
   JSON \<lparr>codes = Some [''too_young'' \<mapsto> 0]\<rparr> id
     (ValidationError [(''email'', ControllerError ''handlers: invalid_email, no at sign''),
                       (''age'', ControllerError ''handlers: too_young, must be 18'')]) =
   Inr ([''error'' \<mapsto> JString ''validation_error'',
         ''fields'' \<mapsto> JFields [''email'' \<mapsto> ''invalid_email'', ''age'' \<mapsto> ''too_young'']], 400)"
  by (simp add: JSON_validation Public_too_young Public_invalid_email SetCode_def has_entry_def
      codes_at_def map_entries_def range_order_def)

text \<open>
  C4, as amended. For an error with a \<^verbatim>\<open>Public()\<close> method returning the code \<open>c\<close>, the
  registration of 422 for it succeeds and the rendered status is then 422, provided that,
  when the error is a validation error, each visited field has a public code and that code
  is \<open>c\<close> or has no registered status other than 0 and 422. A later registration for the
  same error overwrites the earlier: it leaves the registry as if the earlier one had not
  been made, and the code then reads the later status.
\<close>

theorem SetCode_then_JSON_status:
  assumes "is_PublicError err" and "Public err = Inr c"
    and "\<forall>ve. err = ValidationError ve \<longrightarrow>
           (\<forall>(field, x) \<in> set (order ve).
              \<exists>c'. Public x = Inr c' \<and> (c' = c \<or> codes_at e c' = 0 \<or> codes_at e c' = 422))"
  shows "\<exists>e' data.
           SetCode e err 422 = Inr e' \<and>
           JSON e' order err = Inr (data, 422) \<and>
           (\<forall>status. SetCode e' err status = SetCode e err status) \<and>
           (\<forall>status. \<exists>e''. SetCode e' err status = Inr e'' \<and> codes_at e'' c = status)"
proof -
  from SetCode_returns [OF assms(2), of e 422] obtain e' where
    sc: "SetCode e err 422 = Inr e'"
    and at: "\<forall>k. codes_at e' k = (if k = c then 422 else codes_at e k)"
    by blast
  have over: "\<forall>status. SetCode e' err status = SetCode e err status"
    using SetCode_overwrites [OF assms(2) sc] by simp
  have later: "\<forall>status. \<exists>e''. SetCode e' err status = Inr e'' \<and> codes_at e'' c = status"
  proof
    fix status
    from SetCode_returns [OF assms(2), of e' status] show
      "\<exists>e''. SetCode e' err status = Inr e'' \<and> codes_at e'' c = status" by auto
  qed
  have atc: "codes_at e' c = 422" using at by simp
  have "\<exists>data. JSON e' order err = Inr (data, 422)"
  proof (cases "is_ValidationError err")
    case False
    from JSON_plain [OF assms(1) False assms(2), of e' order] atc show ?thesis by simp
  next
    case True
    then obtain ve where x: "err = ValidationError ve" by (cases err) simp_all
    with assms(2) have c: "c = ''validation_error''" by (simp add: ValidationError_Public_def)
    have fields: "\<forall>(field, x) \<in> set (order ve).
              \<exists>c'. Public x = Inr c' \<and> (c' = c \<or> codes_at e c' = 0 \<or> codes_at e c' = 422)"
      using assms(3) x by simp
    then have "\<forall>(field, x) \<in> set (order ve). \<exists>c'. Public x = Inr c'" by fast
    then obtain vem st where r: "range_fields e' (order ve) Map.empty 422 = Inr (vem, st)"
      using range_fields_returns by blast
    have "\<forall>t \<in> set (field_statuses e' (order ve)). t = 422"
    proof
      fix t assume "t \<in> set (field_statuses e' (order ve))"
      then obtain field y where fy: "(field, y) \<in> set (order ve)"
        "t = codes_at e' (code_of y)" "t \<noteq> 0"
        by (auto simp: field_statuses_set)
      from fields fy(1) obtain c' where
        c': "Public y = Inr c'" "c' = c \<or> codes_at e c' = 0 \<or> codes_at e c' = 422" by fast
      then have "code_of y = c'" by (simp add: code_of_def)
      with fy(2,3) c'(2) at show "t = 422" by (auto split: if_splits)
    qed
    then have "st = 422"
      using range_fields_status [OF r]
      by (cases "field_statuses e' (order ve) = []") (simp_all add: last_in_set)
    with r x c atc show ?thesis by (simp add: JSON_validation)
  qed
  with sc over later show ?thesis by blast
qed

theorem SetCode_then_JSON_status_witness:
  "is_PublicError (ValidationError [(''age'', ControllerError ''handlers: too_young, must be 18'')]) \<and>
   Public (ValidationError [(''age'', ControllerError ''handlers: too_young, must be 18'')]) =
     Inr ''validation_error'' \<and>
   codes_at \<lparr>codes = Some [''too_young'' \<mapsto> 422]\<rparr> ''too_young'' = 422 \<and>
   (\<exists>e' data.
      SetCode \<lparr>codes = Some [''too_young'' \<mapsto> 422]\<rparr>
        (ValidationError [(''age'', ControllerError ''handlers: too_young, must be 18'')]) 422 = Inr e' \<and>
      JSON e' id (ValidationError [(''age'', ControllerError ''handlers: too_young, must be 18'')]) =
        Inr (data, 422) \<and>
      (\<exists>e''. SetCode e' (ValidationError [(''age'', ControllerError ''handlers: too_young, must be 18'')]) 409
               = Inr e'' \<and> codes_at e'' ''validation_error'' = 409))"
proof -
  let ?err = "ValidationError [(''age'', ControllerError ''handlers: too_young, must be 18'')]"
  let ?e = "\<lparr>codes = Some [''too_young'' \<mapsto> 422]\<rparr>"
  have p: "is_PublicError ?err" by simp
  have c: "Public ?err = Inr ''validation_error''" by (simp add: ValidationError_Public_def)
  have at: "codes_at ?e ''too_young'' = 422" by (simp add: codes_at_def)
  have f: "\<forall>ve. ?err = ValidationError ve \<longrightarrow>
           (\<forall>(field, x) \<in> set (id ve).
              \<exists>c'. Public x = Inr c' \<and>
                (c' = ''validation_error'' \<or> codes_at ?e c' = 0 \<or> codes_at ?e c' = 422))"
    by (simp add: Public_too_young at)
  from SetCode_then_JSON_status [OF p c f] p c at show ?thesis by blast
qed

text \<open>
  For a validation error the loop over the fields runs after the status of the error's own
  code is taken: a field whose code has the status 404 makes the rendered status 404, though
  422 is registered for the code of the error itself.
\<close>

theorem SetCode_then_JSON_field_status_counterexample:
  "is_PublicError (ValidationError [(''age'', ControllerError ''handlers: too_young, must be 18'')]) \<and>
   Public (ValidationError [(''age'', ControllerError ''handlers: too_young, must be 18'')]) =
     Inr ''validation_error'' \<and>
   SetCode \<lparr>codes = Some [''too_young'' \<mapsto> 404]\<rparr>
     (ValidationError [(''age'', ControllerError ''handlers: too_young, must be 18'')]) 422 =
     Inr \<lparr>codes = Some [''too_young'' \<mapsto> 404, ''validation_error'' \<mapsto> 422]\<rparr> \<and>
   JSON \<lparr>codes = Some [''too_young'' \<mapsto> 404, ''validation_error'' \<mapsto> 422]\<rparr> id
     (ValidationError [(''age'', ControllerError ''handlers: too_young, must be 18'')]) =
   Inr ([''error'' \<mapsto> JString ''validation_error'',
         ''fields'' \<mapsto> JFields [''age'' \<mapsto> ''too_young'']], 404)"
  by (simp add: JSON_validation Public_too_young SetCode_def ValidationError_Public_def codes_at_def)







text \<open>
  C7. The claim is that rendering never panics, also for a ControllerError shorter than
  its prefix. The code panics there: \<^verbatim>\<open>JSON\<close> calls \<^verbatim>\<open>Public()\<close>, whose slice
  \<^verbatim>\<open>string(e)[len("handlers: "):]\<close> is out of range for the 4-byte string "oops".
\<close>

theorem JSON_short_ControllerError_panics:
  "JSON e order (ControllerError ''oops'') = Inl SliceBounds"
  by (simp add: JSON_def ControllerError_Public_def)

text \<open>
  The same panic reaches \<^verbatim>\<open>JSON\<close> through a validation error that holds such a field, and a
  nil field value makes the call \<^verbatim>\<open>err.Public()\<close> of the loop panic as well. The theorems on
  validation errors above are therefore stated for fields whose \<^verbatim>\<open>Public()\<close> returns.
\<close>

lemma JSON_field_panics:
  "JSON e id (ValidationError [(''age'', ControllerError ''oops'')]) = Inl SliceBounds \<and>
   JSON e id (ValidationError [(''age'', NilError)]) = Inl NilDereference"
  by (simp add: JSON_validation ControllerError_Public_def)

section \<open>The claim on the shutdown signal\<close>

text \<open>
  C6. \<^verbatim>\<open>IsShutdown\<close> is true for an error of \<^verbatim>\<open>NewShutdownError\<close>, bare or under any number
  of wrapping layers, and false for every error whose innermost cause is not of the type
  \<^verbatim>\<open>*shutdown\<close>: stated on the cause itself, and for an error without a \<^verbatim>\<open>Cause()\<close> method
  under any number of layers. The message plays no part: an \<^verbatim>\<open>errors.New\<close> error and a
  \<^verbatim>\<open>privateError\<close> with the very message of a shutdown error are not shutdown errors.
\<close>

theorem IsShutdown_identity:
  "IsShutdown (NewShutdownError message) \<and>
   IsShutdown (wrap_layers ls (NewShutdownError message)) \<and>
   (\<not> is_shutdown (Cause err) \<longrightarrow> \<not> IsShutdown err) \<and>
   (\<not> has_Cause err \<and> \<not> is_shutdown err \<longrightarrow> \<not> IsShutdown (wrap_layers ls err)) \<and>
   \<not> IsShutdown (Fundamental message) \<and> \<not> IsShutdown (PrivateError message)"
proof -
  have "Cause (wrap_layers ls (NewShutdownError message)) = Shutdown message"
    using Cause_wrap_layers [of "Shutdown message" ls] by (simp add: NewShutdownError_def)
  moreover have "\<not> has_Cause err \<Longrightarrow> Cause (wrap_layers ls err) = err"
    by (rule Cause_wrap_layers)
  ultimately show ?thesis
    by (auto simp: IsShutdown_iff NewShutdownError_def)
qed

theorem IsShutdown_identity_witness:
  "IsShutdown (NewShutdownError ''bye'') \<and>
   IsShutdown (wrap_layers [Stack, Message ''outer'', Stack, Message ''inner''] (NewShutdownError ''bye'')) \<and>
   wrap_layers [Stack, Message ''outer''] (NewShutdownError ''bye'') =
     WithStack (WithMessage (Shutdown ''bye'') ''outer'') \<and>
   \<not> is_shutdown (Cause (WithStack (WithMessage (Fundamental ''bye'') ''outer''))) \<and>
   \<not> IsShutdown (WithStack (WithMessage (Fundamental ''bye'') ''outer'')) \<and>
   \<not> IsShutdown (Fundamental ''bye'')"
  using IsShutdown_identity
    [of "''bye''" "[Stack, Message ''outer'', Stack, Message ''inner'']"
        "WithStack (WithMessage (Fundamental ''bye'') ''outer'')"]
  by (simp add: wrap_layers_def NewShutdownError_def)

end
